theory Spec2Isabelle
  imports Complex_Main "HOL-Library.Sublist"
begin

section \<open>The stop-word moderation bot (any.py)\<close>

text \<open>
  A shallow embedding of the handlers of \<^verbatim>\<open>any.py\<close>. Every handler takes the world
  (the process state, the files of the stop-word directory and the answers of the
  messaging transport) and returns the world it leaves behind, a command handler also
  the exception it ends with, if any. Requests sent to the transport and the entries
  \<^verbatim>\<open>load_stopwords\<close> and \<^verbatim>\<open>save_stopwords\<close> write to the log on entry are appended to a
  trace, in program order.
\<close>

subsection \<open>Strings\<close>

text \<open>
  Python's \<^verbatim>\<open>word in text\<close> on two strings: \<open>word\<close> occurs in \<open>text\<close> as a contiguous
  run of characters. The empty string occurs in every string.
\<close>

fun startswith :: "string \<Rightarrow> string \<Rightarrow> bool" where
  "startswith t [] = True"
| "startswith [] (c # cs) = False"
| "startswith (d # ds) (c # cs) = (d = c \<and> startswith ds cs)"

fun str_contains :: "string \<Rightarrow> string \<Rightarrow> bool" where
  "str_contains word [] = (word = [])"
| "str_contains word (c # cs) = (startswith (c # cs) word \<or> str_contains word cs)"

text \<open>
  \<^verbatim>\<open>str(n)\<close> for an integer, as the f-strings of the source print chat and message
  identifiers: decimal digits, most significant first, with a leading minus sign for
  a negative number.
\<close>

definition digit_char :: "nat \<Rightarrow> char" where
  "digit_char d = ''0123456789'' ! d"

fun str_nat :: "nat \<Rightarrow> string" where
  "str_nat n = (if n < 10 then [digit_char n] else str_nat (n div 10) @ [digit_char (n mod 10)])"

declare str_nat.simps [simp del]

definition str_int :: "int \<Rightarrow> string" where
  "str_int i = (if i < 0 then CHR ''-'' # str_nat (nat (- i)) else str_nat (nat i))"

text \<open>Reading a number back from its digits, to tell the keys of two messages apart.\<close>

definition digit_value :: "char \<Rightarrow> nat" where
  "digit_value c = of_char c - 48"

definition nat_of_str :: "string \<Rightarrow> nat" where
  "nat_of_str s = foldl (\<lambda>n c. 10 * n + digit_value c) 0 s"

text \<open>
  \<^verbatim>\<open>str.lower\<close> is a function of the Python library that follows the Unicode tables.
  The handlers take it as the parameter \<open>lower\<close>; \<open>ascii_lower\<close> is its restriction to
  ASCII text, used where a concrete text is evaluated.
\<close>

definition ascii_lower_char :: "char \<Rightarrow> char" where
  "ascii_lower_char c =
     (let n = (of_char c :: nat)
      in if 65 \<le> n \<and> n \<le> 90 then char_of (n + 32) else c)"

definition ascii_lower :: "string \<Rightarrow> string" where
  "ascii_lower s = map ascii_lower_char s"

subsection \<open>JSON values, as Python reads them\<close>

text \<open>
  What \<^verbatim>\<open>json.load\<close> returns: \<^verbatim>\<open>None\<close>, a boolean, a number, a string, a list, or a
  dictionary, given by its keys and values in the order of the document, each key once.
\<close>

datatype json =
    JNull
  | JBool bool
  | JNumber rat
  | JString string
  | JArray "json list"
  | JObject "(string \<times> json) list"

text \<open>Exceptions, as values. Every \<^verbatim>\<open>except\<close> clause of the source catches all of them.\<close>

datatype exn =
    OSError
  | JSONDecodeError
  | AttributeError
  | TypeError
  | TelegramError string
  | OtherException string

text \<open>A list of words, and the document \<^verbatim>\<open>json.dump({'stopwords': stopwords}, ...)\<close> writes.\<close>

definition words :: "string list \<Rightarrow> json" where
  "words ws = JArray (map JString ws)"

definition stopwords_document :: "json \<Rightarrow> json" where
  "stopwords_document stopwords = JObject [(''stopwords'', stopwords)]"

text \<open>\<^verbatim>\<open>data.get('stopwords', [])\<close>: only a dictionary has the method \<^verbatim>\<open>get\<close>.\<close>

fun get_stopwords :: "json \<Rightarrow> exn + json" where
  "get_stopwords (JObject kvs) =
     (case map_of kvs ''stopwords'' of None \<Rightarrow> Inr (JArray []) | Some v \<Rightarrow> Inr v)"
| "get_stopwords v = Inl AttributeError"

text \<open>The truth value of a value, as \<^verbatim>\<open>if not stopwords\<close> tests it.\<close>

fun truthy :: "json \<Rightarrow> bool" where
  "truthy JNull = False"
| "truthy (JBool b) = b"
| "truthy (JNumber n) = (n \<noteq> 0)"
| "truthy (JString s) = (s \<noteq> [])"
| "truthy (JArray xs) = (xs \<noteq> [])"
| "truthy (JObject kvs) = (kvs \<noteq> [])"

text \<open>\<^verbatim>\<open>for word in stopwords\<close>: the elements of a list, the characters of a string, the
  keys of a dictionary; nothing else can be iterated.\<close>

fun iterate :: "json \<Rightarrow> exn + json list" where
  "iterate (JArray xs) = Inr xs"
| "iterate (JString s) = Inr (map (\<lambda>c. JString [c]) s)"
| "iterate (JObject kvs) = Inr (map (\<lambda>kv. JString (fst kv)) kvs)"
| "iterate v = Inl TypeError"

text \<open>\<^verbatim>\<open>word in stopwords\<close>, the left operand a string: an element equal to it in a list,
  a substring of a string, a key of a dictionary.\<close>

fun member_of :: "string \<Rightarrow> json \<Rightarrow> exn + bool" where
  "member_of word (JArray xs) = Inr (JString word \<in> set xs)"
| "member_of word (JString s) = Inr (str_contains word s)"
| "member_of word (JObject kvs) = Inr (word \<in> fst ` set kvs)"
| "member_of word v = Inl TypeError"

text \<open>\<^verbatim>\<open>stopwords.append(word)\<close> and \<^verbatim>\<open>stopwords.remove(word)\<close>: methods of lists only.
  \<^verbatim>\<open>remove\<close> is called for a word that is in the list, and deletes its first occurrence.\<close>

fun append_word :: "json \<Rightarrow> string \<Rightarrow> exn + json" where
  "append_word (JArray xs) word = Inr (JArray (xs @ [JString word]))"
| "append_word v word = Inl AttributeError"

fun remove_first :: "json \<Rightarrow> string \<Rightarrow> exn + json" where
  "remove_first (JArray xs) word = Inr (JArray (remove1 (JString word) xs))"
| "remove_first v word = Inl AttributeError"

subsection \<open>The world\<close>

text \<open>
  What a file \<^verbatim>\<open>stopwords/stopwords_<chat_id>.json\<close> holds: a JSON document, given as the
  value \<^verbatim>\<open>json.load\<close> returns for it, or text that is not JSON (\<^verbatim>\<open>json.load\<close> raises).
  \<^verbatim>\<open>json.dump\<close> followed by \<^verbatim>\<open>json.load\<close> is taken to give back the value that was written.
\<close>

datatype file_content =
    Json json
  | Not_Json

text \<open>
  How a write of \<^verbatim>\<open>save_stopwords\<close> can fail: \<^verbatim>\<open>open(file_path, 'w')\<close> raises and the
  file stays as it was, or the file was opened (and so truncated) and \<^verbatim>\<open>json.dump\<close> or
  the closing of the file raises, leaving text that is not a JSON document.
\<close>

datatype write_fault = Open_Fails | Dump_Fails

text \<open>The member object \<^verbatim>\<open>get_chat_member\<close> returns; the attribute
  \<^verbatim>\<open>can_delete_messages\<close> is absent on some kinds of member and may be \<^verbatim>\<open>None\<close>.\<close>

record chat_member =
  status :: string
  can_delete_messages :: "bool option"

datatype reply =
    Only_Admins_Add            \<comment> \<open>line 193\<close>
  | Cannot_Add                 \<comment> \<open>line 200, after the reason\<close>
  | Usage_Add                  \<comment> \<open>line 205\<close>
  | Already_Present string     \<comment> \<open>line 213\<close>
  | Added string               \<comment> \<open>line 219\<close>
  | Only_Admins_Remove         \<comment> \<open>line 229\<close>
  | Usage_Remove               \<comment> \<open>line 234\<close>
  | Not_Found string           \<comment> \<open>line 242\<close>
  | Removed string             \<comment> \<open>line 248\<close>
  | List_Empty                 \<comment> \<open>line 259\<close>
  | Word_List "json list"      \<comment> \<open>line 264, one line for each element\<close>

datatype event =
    Get_Chat_Member int int         \<comment> \<open>\<^verbatim>\<open>context.bot.get_chat_member(chat_id, user_id)\<close>\<close>
  | Delete_Message int int          \<comment> \<open>\<^verbatim>\<open>context.bot.delete_message(chat_id, message_id)\<close>\<close>
  | Reply_Text reply                \<comment> \<open>\<^verbatim>\<open>update.message.reply_text(...)\<close>\<close>
  | Load_Stopwords int              \<comment> \<open>entry of \<^verbatim>\<open>load_stopwords\<close>, logged at line 45\<close>
  | Save_Stopwords int json         \<comment> \<open>entry of \<^verbatim>\<open>save_stopwords\<close>, logged at line 67\<close>

record world =
  processed_messages :: "string set"
  files :: "string \<rightharpoonup> file_content"
  read_fault :: "string \<Rightarrow> bool"
  write_fault :: "string \<Rightarrow> write_fault option"
  bot_id :: int
  chat_members :: "int \<Rightarrow> int \<Rightarrow> exn + chat_member"
  delete_fault :: "int \<Rightarrow> int \<Rightarrow> exn option"
  reply_fault :: "int \<Rightarrow> exn option"
  trace :: "event list"

text \<open>
  \<open>read_fault p\<close>: opening the existing file \<open>p\<close> for reading raises. \<open>write_fault p\<close>:
  whether and how writing \<open>p\<close> fails. \<open>chat_members c u\<close>: what the transport answers to
  \<^verbatim>\<open>get_chat_member(c, u)\<close>. \<open>delete_fault c m\<close>: the exception \<^verbatim>\<open>delete_message(c, m)\<close>
  raises, if any. \<open>reply_fault c\<close>: the exception sending a reply to chat \<open>c\<close> raises, if any.
\<close>

text \<open>
  An update. \<open>message\<close> is \<^verbatim>\<open>update.message\<close>: it is \<^verbatim>\<open>None\<close> for an edited message and for a
  channel post, which the handlers receive as well (line 401).
\<close>

record message =
  message_id :: int
  "text" :: "string option"

record update =
  effective_chat_id :: int
  effective_chat_type :: string
  effective_user_id :: int
  message :: "message option"

definition emit :: "event \<Rightarrow> world \<Rightarrow> world" where
  "emit e w = w\<lparr>trace := trace w @ [e]\<rparr>"

definition MAX_CACHE_SIZE :: nat where
  "MAX_CACHE_SIZE = 1000"

subsection \<open>The stop-word files\<close>

definition get_stopwords_file :: "int \<Rightarrow> string" where
  "get_stopwords_file chat_id = ''stopwords/stopwords_'' @ str_int chat_id @ ''.json''"

text \<open>\<^verbatim>\<open>save_stopwords\<close>, lines 65 to 75: the exception of a failed write is logged and dropped.\<close>

definition save_stopwords :: "world \<Rightarrow> int \<Rightarrow> json \<Rightarrow> world" where
  "save_stopwords w chat_id stopwords =
     (let file_path = get_stopwords_file chat_id;
          w1 = emit (Save_Stopwords chat_id stopwords) w
      in case write_fault w1 file_path of
           None \<Rightarrow> w1\<lparr>files := (files w1)(file_path \<mapsto> Json (stopwords_document stopwords))\<rparr>
         | Some Open_Fails \<Rightarrow> w1
         | Some Dump_Fails \<Rightarrow> w1\<lparr>files := (files w1)(file_path \<mapsto> Not_Json)\<rparr>)"

text \<open>Lines 49 to 53, the body of the \<^verbatim>\<open>with\<close> statement: what it returns or raises. The
  value under the key is returned as it is, whatever its type.\<close>

definition read_stopwords :: "world \<Rightarrow> string \<Rightarrow> file_content \<Rightarrow> exn + json" where
  "read_stopwords w file_path content =
     (if read_fault w file_path then Inl OSError
      else case content of
             Not_Json \<Rightarrow> Inl JSONDecodeError
           | Json data \<Rightarrow> get_stopwords data)"

text \<open>\<^verbatim>\<open>load_stopwords\<close>, lines 43 to 62.\<close>

definition load_stopwords :: "world \<Rightarrow> int \<Rightarrow> world \<times> json" where
  "load_stopwords w chat_id =
     (let file_path = get_stopwords_file chat_id;
          w1 = emit (Load_Stopwords chat_id) w
      in case files w1 file_path of
           Some content \<Rightarrow>
             (case read_stopwords w1 file_path content of
                Inr stopwords \<Rightarrow> (w1, stopwords)
              | Inl e \<Rightarrow> (w1, JArray []))
         | None \<Rightarrow> (save_stopwords w1 chat_id (JArray []), JArray []))"

subsection \<open>The permission checks\<close>

text \<open>\<^verbatim>\<open>is_admin\<close>, lines 78 to 96.\<close>

definition is_admin :: "world \<Rightarrow> update \<Rightarrow> world \<times> bool" where
  "is_admin w u =
     (let chat_id = effective_chat_id u; user_id = effective_user_id u
      in if effective_chat_type u = ''private'' then (w, True)
         else let w1 = emit (Get_Chat_Member chat_id user_id) w
              in case chat_members w1 chat_id user_id of
                   Inr chat_member \<Rightarrow> (w1, status chat_member \<in> set [''creator'', ''administrator''])
                 | Inl e \<Rightarrow> (w1, False))"

datatype permission_message =
    Not_Administrator          \<comment> \<open>line 108\<close>
  | No_Delete_Right            \<comment> \<open>line 112\<close>
  | Has_All_Rights             \<comment> \<open>line 114\<close>
  | Check_Error exn            \<comment> \<open>line 118\<close>

text \<open>\<^verbatim>\<open>check_bot_permissions\<close>, lines 99 to 118;
  \<^verbatim>\<open>getattr(bot_member, 'can_delete_messages', False)\<close> is \<^verbatim>\<open>False\<close> for an absent attribute.\<close>

definition check_bot_permissions :: "world \<Rightarrow> int \<Rightarrow> world \<times> bool \<times> permission_message" where
  "check_bot_permissions w chat_id =
     (let w1 = emit (Get_Chat_Member chat_id (bot_id w)) w
      in case chat_members w1 chat_id (bot_id w1) of
           Inr bot_member \<Rightarrow>
             if status bot_member \<notin> set [''administrator'', ''creator'']
             then (w1, False, Not_Administrator)
             else if \<not> (case can_delete_messages bot_member of None \<Rightarrow> False | Some b \<Rightarrow> b)
             then (w1, False, No_Delete_Right)
             else (w1, True, Has_All_Rights)
         | Inl e \<Rightarrow> (w1, False, Check_Error e))"

subsection \<open>The command handlers\<close>

text \<open>
  \<open>args\<close> is \<^verbatim>\<open>context.args\<close>, the tokens after the command. A handler returns the world
  it leaves and the exception it ends with, if any: an exception that no \<^verbatim>\<open>except\<close> clause
  of the handler catches leaves it and goes to the error handler.
\<close>

text \<open>
  \<^verbatim>\<open>await update.message.reply_text(...)\<close>. For an update without a message the attribute
  lookup on \<^verbatim>\<open>None\<close> raises and nothing is sent. Otherwise the reply is handed to the
  transport, which is recorded in the trace, and the transport may raise.
\<close>

definition reply_text :: "world \<Rightarrow> update \<Rightarrow> reply \<Rightarrow> world \<times> exn option" where
  "reply_text w u r =
     (case message u of
        None \<Rightarrow> (w, Some AttributeError)
      | Some m \<Rightarrow> (emit (Reply_Text r) w, reply_fault w (effective_chat_id u)))"

text \<open>\<^verbatim>\<open>add_word\<close>, lines 186 to 219.\<close>

definition add_word ::
  "(string \<Rightarrow> string) \<Rightarrow> world \<Rightarrow> update \<Rightarrow> string list \<Rightarrow> world \<times> exn option" where
  "add_word lower w u args =
     (let chat_id = effective_chat_id u;
          (w1, admin) = is_admin w u
      in if \<not> admin then reply_text w1 u Only_Admins_Add
         else
           let (w2, has_permissions, msg) =
                 (if effective_chat_type u \<noteq> ''private'' then check_bot_permissions w1 chat_id
                  else (w1, True, Has_All_Rights))
           in if \<not> has_permissions then reply_text w2 u Cannot_Add
              else case args of
                     [] \<Rightarrow> reply_text w2 u Usage_Add
                   | a # rest \<Rightarrow>
                       let word = lower a;
                           (w3, stopwords) = load_stopwords w2 chat_id
                       in case member_of word stopwords of
                            Inl e \<Rightarrow> (w3, Some e)
                          | Inr present \<Rightarrow>
                              if present then reply_text w3 u (Already_Present word)
                              else case append_word stopwords word of
                                     Inl e \<Rightarrow> (w3, Some e)
                                   | Inr stopwords' \<Rightarrow>
                                       reply_text (save_stopwords w3 chat_id stopwords') u
                                         (Added word))"

text \<open>\<^verbatim>\<open>remove_word\<close>, lines 222 to 248.\<close>

definition remove_word ::
  "(string \<Rightarrow> string) \<Rightarrow> world \<Rightarrow> update \<Rightarrow> string list \<Rightarrow> world \<times> exn option" where
  "remove_word lower w u args =
     (let chat_id = effective_chat_id u;
          (w1, admin) = is_admin w u
      in if \<not> admin then reply_text w1 u Only_Admins_Remove
         else case args of
                [] \<Rightarrow> reply_text w1 u Usage_Remove
              | a # rest \<Rightarrow>
                  let word = lower a;
                      (w2, stopwords) = load_stopwords w1 chat_id
                  in case member_of word stopwords of
                       Inl e \<Rightarrow> (w2, Some e)
                     | Inr present \<Rightarrow>
                         if \<not> present then reply_text w2 u (Not_Found word)
                         else case remove_first stopwords word of
                                Inl e \<Rightarrow> (w2, Some e)
                              | Inr stopwords' \<Rightarrow>
                                  reply_text (save_stopwords w2 chat_id stopwords') u
                                    (Removed word))"


subsection \<open>The message handler\<close>

text \<open>\<^verbatim>\<open>safe_delete_message\<close>, lines 267 to 285: both \<^verbatim>\<open>except\<close> clauses return \<^verbatim>\<open>False\<close>.\<close>

definition safe_delete_message :: "world \<Rightarrow> int \<Rightarrow> int \<Rightarrow> world \<times> bool" where
  "safe_delete_message w chat_id msg_id =
     (let w1 = emit (Delete_Message chat_id msg_id) w
      in case delete_fault w1 chat_id msg_id of
           None \<Rightarrow> (w1, True)
         | Some (TelegramError s) \<Rightarrow> (w1, False)
         | Some e \<Rightarrow> (w1, False))"

text \<open>
  \<^verbatim>\<open>check_message\<close> returns \<^verbatim>\<open>None\<close> on every path. The model returns the name of the exit
  it takes: each exit but the first writes its own line to the log. \<open>Raised\<close> is the
  exit by an exception that leaves the handler.
\<close>

datatype skip_reason = AlreadyProcessed | InsufficientBotCapability | EmptyStopwordList

datatype outcome =
    Ignored                   \<comment> \<open>line 291, nothing logged\<close>
  | Skipped skip_reason       \<comment> \<open>lines 302, 326, 334\<close>
  | NoMatch                   \<comment> \<open>the loop ends without a match\<close>
  | DeletedOnMatch string     \<comment> \<open>line 349\<close>
  | DeleteFailed string       \<comment> \<open>line 356\<close>
  | Raised exn                \<comment> \<open>lines 338, 339\<close>

definition message_key :: "int \<Rightarrow> int \<Rightarrow> string" where
  "message_key chat_id msg_id = str_int chat_id @ ''_'' @ str_int msg_id"

text \<open>Lines 305 to 311: the key is added; a set that is now too large is emptied and
  the key added again. No \<^verbatim>\<open>await\<close> stands between these lines.\<close>

definition remember :: "string \<Rightarrow> string set \<Rightarrow> string set" where
  "remember key cache =
     (let cache1 = insert key cache
      in if card cache1 > MAX_CACHE_SIZE then insert key {} else cache1)"

text \<open>The loop of lines 338 to 358, over the elements the iteration gives; \<^verbatim>\<open>break\<close> ends it
  after the first word found. \<^verbatim>\<open>word in message_text_lower\<close> raises for a \<open>word\<close> that is
  not a string. The pause of line 343 before the deletion changes no state and is
  left out.\<close>

fun scan :: "world \<Rightarrow> int \<Rightarrow> int \<Rightarrow> string \<Rightarrow> json list \<Rightarrow> world \<times> outcome" where
  "scan w chat_id msg_id message_text_lower [] = (w, NoMatch)"
| "scan w chat_id msg_id message_text_lower (JString word # rest) =
     (if str_contains word message_text_lower
      then let (w1, success) = safe_delete_message w chat_id msg_id
           in if success then (w1, DeletedOnMatch word) else (w1, DeleteFailed word)
      else scan w chat_id msg_id message_text_lower rest)"
| "scan w chat_id msg_id message_text_lower (v # rest) = (w, Raised TypeError)"

text \<open>\<^verbatim>\<open>check_message\<close>, lines 288 to 358. \<^verbatim>\<open>not update.message.text\<close> holds for a missing
  text and for the empty text.\<close>

definition check_message :: "(string \<Rightarrow> string) \<Rightarrow> world \<Rightarrow> update \<Rightarrow> world \<times> outcome" where
  "check_message lower w u =
     (case message u of
        None \<Rightarrow> (w, Ignored)
      | Some m \<Rightarrow>
          (case text m of
             None \<Rightarrow> (w, Ignored)
           | Some message_text \<Rightarrow>
               if message_text = [] then (w, Ignored)
               else
                 let chat_id = effective_chat_id u;
                     msg_id = message_id m;
                     key = message_key chat_id msg_id
                 in if key \<in> processed_messages w then (w, Skipped AlreadyProcessed)
                    else
                      let w1 = w\<lparr>processed_messages := remember key (processed_messages w)\<rparr>;
                          (w2, has_permissions, msg) =
                            (if effective_chat_type u \<noteq> ''private''
                             then check_bot_permissions w1 chat_id
                             else (w1, True, Has_All_Rights))
                      in if \<not> has_permissions then (w2, Skipped InsufficientBotCapability)
                         else
                           let (w3, stopwords) = load_stopwords w2 chat_id
                           in if \<not> truthy stopwords then (w3, Skipped EmptyStopwordList)
                              else case iterate stopwords of
                                     Inl e \<Rightarrow> (w3, Raised e)
                                   | Inr items \<Rightarrow>
                                       scan w3 chat_id msg_id (lower message_text) items))"

text \<open>A sequence of updates, handled one after the other.\<close>

fun run :: "(string \<Rightarrow> string) \<Rightarrow> world \<Rightarrow> update list \<Rightarrow> world" where
  "run lower w [] = w"
| "run lower w (u # us) = run lower (fst (check_message lower w u)) us"

text \<open>What a call added to the trace, and the requests for deletion among it.\<close>

definition new_events :: "world \<Rightarrow> world \<Rightarrow> event list" where
  "new_events w w' = drop (length (trace w)) (trace w')"

fun is_delete :: "event \<Rightarrow> bool" where
  "is_delete (Delete_Message c m) = True"
| "is_delete e = False"

fun is_member_query :: "event \<Rightarrow> bool" where
  "is_member_query (Get_Chat_Member c x) = True"
| "is_member_query e = False"

fun is_store_access :: "event \<Rightarrow> bool" where
  "is_store_access (Load_Stopwords c) = True"
| "is_store_access (Save_Stopwords c ws) = True"
| "is_store_access e = False"

fun matched_word :: "outcome \<Rightarrow> string option" where
  "matched_word (DeletedOnMatch word) = Some word"
| "matched_word (DeleteFailed word) = Some word"
| "matched_word out = None"

text \<open>The replies among a list of events.\<close>

fun replies :: "event list \<Rightarrow> reply list" where
  "replies [] = []"
| "replies (Reply_Text r # es) = r # replies es"
| "replies (e # es) = replies es"

subsection \<open>Notions used in the statements\<close>

text \<open>The update carries a message with a text that is not empty (line 290 lets it pass):
  its message identifier and its text.\<close>

definition text_message :: "update \<Rightarrow> (int \<times> string) option" where
  "text_message u =
     (case message u of
        None \<Rightarrow> None
      | Some m \<Rightarrow> (case text m of
                    None \<Rightarrow> None
                  | Some txt \<Rightarrow> if txt = [] then None else Some (message_id m, txt)))"

text \<open>The test of lines 321 to 323: the chat is private, or \<^verbatim>\<open>check_bot_permissions\<close>
  answers \<^verbatim>\<open>True\<close> for it.\<close>

definition bot_capable :: "world \<Rightarrow> update \<Rightarrow> bool" where
  "bot_capable w u =
     (effective_chat_type u = ''private'' \<or> fst (snd (check_bot_permissions w (effective_chat_id u))))"

text \<open>A file as \<^verbatim>\<open>save_stopwords\<close> writes it for a list of words.\<close>

definition stored :: "string list \<Rightarrow> file_content" where
  "stored ws = Json (stopwords_document (words ws))"

subsection \<open>Concrete worlds\<close>

text \<open>A world with an empty cache, no files and no faults, in which every member of every
  chat, the bot included, has the status \<^verbatim>\<open>member\<close>.\<close>

definition base_world :: world where
  "base_world =
     \<lparr>processed_messages = {},
      files = Map.empty,
      read_fault = (\<lambda>p. False),
      write_fault = (\<lambda>p. None),
      bot_id = 999,
      chat_members = (\<lambda>c x. Inr \<lparr>status = ''member'', can_delete_messages = None\<rparr>),
      delete_fault = (\<lambda>c i. None),
      reply_fault = (\<lambda>c. None),
      trace = []\<rparr>"

definition text_update :: "int \<Rightarrow> string \<Rightarrow> int \<Rightarrow> int \<Rightarrow> string \<Rightarrow> update" where
  "text_update chat_id chat_type user_id msg_id t =
     \<lparr>effective_chat_id = chat_id,
      effective_chat_type = chat_type,
      effective_user_id = user_id,
      message = Some \<lparr>message_id = msg_id, text = Some t\<rparr>\<rparr>"


definition cat_world :: world where
  "cat_world = base_world\<lparr>files := [get_stopwords_file 42 \<mapsto> stored [''cat'', ''category'']]\<rparr>"

definition cat_update :: update where
  "cat_update = text_update 42 ''private'' 5 7 ''this is a category''"

text \<open>A group chat with the stored list \<^verbatim>\<open>["spam"]\<close>; user 5 is an administrator of it, every
  other member, the bot included, has the status \<^verbatim>\<open>member\<close>.\<close>

definition group_world :: world where
  "group_world =
     base_world\<lparr>files := [get_stopwords_file (- 1001) \<mapsto> stored [''spam'']],
                chat_members := (\<lambda>c x. Inr \<lparr>status = (if x = 5 then ''administrator'' else ''member''),
                                             can_delete_messages = None\<rparr>)\<rparr>"

text \<open>The same group after message 7 has been handled once.\<close>

definition seen_world :: world where
  "seen_world = group_world\<lparr>processed_messages := {message_key (- 1001) 7}\<rparr>"

text \<open>A group whose stored list is empty, a chat whose file is not a JSON document, and a
  chat whose file holds \<^verbatim>\<open>{"stopwords": null}\<close>.\<close>

definition empty_world :: world where
  "empty_world = base_world\<lparr>files := [get_stopwords_file (- 1001) \<mapsto> stored []]\<rparr>"



text \<open>A cache that holds \<open>MAX_CACHE_SIZE\<close> keys, those of the messages 0 to 999 of chat 42,
  and the next message of that chat.\<close>

definition full_cache :: "string set" where
  "full_cache = (\<lambda>n. message_key 42 (int n)) ` {..<MAX_CACHE_SIZE}"

definition full_world :: world where
  "full_world = base_world\<lparr>processed_messages := full_cache\<rparr>"

definition overflow_update :: update where
  "overflow_update = text_update 42 ''private'' 5 1000 ''hello''"

text \<open>Updates: messages with a stop word in it, and commands.\<close>

definition spam_update :: update where
  "spam_update = text_update (- 1001) ''group'' 6 7 ''buy SPAM now''"

definition private_spam_update :: update where
  "private_spam_update = text_update 7 ''private'' 6 3 ''buy SPAM now''"


definition add_word_update :: update where
  "add_word_update = text_update 42 ''private'' 5 9 ''/add_word foo bar''"


definition remove_word_update :: update where
  "remove_word_update = text_update (- 1001) ''group'' 5 11 ''/remove_word spam''"

section \<open>Properties\<close>

subsection \<open>Auxiliary facts\<close>

lemma startswith_prefix: "startswith t word = prefix word t"
  by (induction t word rule: startswith.induct) auto

lemma str_contains_sublist: "str_contains word t = sublist word t"
  by (induction t) (simp_all add: startswith_prefix sublist_Cons_right)

lemma words_simps [simp]:
  "truthy (words ws) = (ws \<noteq> [])"
  "iterate (words ws) = Inr (map JString ws)"
  "member_of word (words ws) = Inr (word \<in> set ws)"
  "append_word (words ws) word = Inr (words (ws @ [word]))"
  by (auto simp: words_def)

lemma remove1_JString: "remove1 (JString word) (map JString ws) = map JString (remove1 word ws)"
  by (induction ws) auto

lemma remove_first_words [simp]:
  "remove_first (words ws) word = Inr (words (remove1 word ws))"
  by (simp add: words_def remove1_JString)

lemma words_Nil [simp]: "words [] = JArray []"
  by (simp add: words_def)

lemma emit_fields [simp]:
  "trace (emit e w) = trace w @ [e]"
  "files (emit e w) = files w"
  "processed_messages (emit e w) = processed_messages w"
  "read_fault (emit e w) = read_fault w"
  "write_fault (emit e w) = write_fault w"
  "bot_id (emit e w) = bot_id w"
  "chat_members (emit e w) = chat_members w"
  "delete_fault (emit e w) = delete_fault w"
  "reply_fault (emit e w) = reply_fault w"
  by (simp_all add: emit_def)

lemma save_stopwords_fields [simp]:
  "trace (save_stopwords w c v) = trace w @ [Save_Stopwords c v]"
  "processed_messages (save_stopwords w c v) = processed_messages w"
  "read_fault (save_stopwords w c v) = read_fault w"
  "write_fault (save_stopwords w c v) = write_fault w"
  "bot_id (save_stopwords w c v) = bot_id w"
  "chat_members (save_stopwords w c v) = chat_members w"
  "delete_fault (save_stopwords w c v) = delete_fault w"
  "reply_fault (save_stopwords w c v) = reply_fault w"
  by (simp_all add: save_stopwords_def Let_def split: option.splits write_fault.splits)

lemma load_stopwords_fields [simp]:
  "trace (fst (load_stopwords w c)) =
     trace w @ Load_Stopwords c #
       (if files w (get_stopwords_file c) = None then [Save_Stopwords c (JArray [])] else [])"
  "processed_messages (fst (load_stopwords w c)) = processed_messages w"
  "read_fault (fst (load_stopwords w c)) = read_fault w"
  "write_fault (fst (load_stopwords w c)) = write_fault w"
  "bot_id (fst (load_stopwords w c)) = bot_id w"
  "chat_members (fst (load_stopwords w c)) = chat_members w"
  "delete_fault (fst (load_stopwords w c)) = delete_fault w"
  "reply_fault (fst (load_stopwords w c)) = reply_fault w"
  by (simp_all add: load_stopwords_def Let_def split: option.splits sum.splits)

lemma load_stopwords_result:
  "snd (load_stopwords w c) =
     (case files w (get_stopwords_file c) of
        None \<Rightarrow> JArray []
      | Some content \<Rightarrow>
          (case read_stopwords w (get_stopwords_file c) content of
             Inr v \<Rightarrow> v
           | Inl e \<Rightarrow> JArray []))"
  by (simp add: load_stopwords_def Let_def read_stopwords_def split: option.splits sum.splits)

lemma load_stopwords_stored:
  "files w (get_stopwords_file c) = Some (stored ws) \<Longrightarrow> \<not> read_fault w (get_stopwords_file c) \<Longrightarrow>
   snd (load_stopwords w c) = words ws"
  by (simp add: load_stopwords_result read_stopwords_def stored_def stopwords_document_def)

lemma safe_delete_message_fields [simp]:
  "trace (fst (safe_delete_message w c m)) = trace w @ [Delete_Message c m]"
  "files (fst (safe_delete_message w c m)) = files w"
  "processed_messages (fst (safe_delete_message w c m)) = processed_messages w"
  by (simp_all add: safe_delete_message_def Let_def split: option.splits exn.splits)

lemma safe_delete_message_snd:
  "snd (safe_delete_message w c i) = (delete_fault w c i = None)"
  by (simp add: safe_delete_message_def Let_def split: option.splits exn.splits)

lemma scan_words:
  "scan w c m t (map JString ws) =
     (case find (\<lambda>x. str_contains x t) ws of
        None \<Rightarrow> (w, NoMatch)
      | Some word \<Rightarrow>
          (fst (safe_delete_message w c m),
           if snd (safe_delete_message w c m) then DeletedOnMatch word else DeleteFailed word))"
  by (induction ws) (simp_all add: case_prod_beta)

lemma scan_processed_messages:
  "processed_messages (fst (scan w c m t items)) = processed_messages w"
  by (induction w c m t items rule: scan.induct) (simp_all add: case_prod_beta)

lemma scan_trace:
  "trace (fst (scan w c m t items)) =
     trace w @ (if matched_word (snd (scan w c m t items)) = None then [] else [Delete_Message c m])"
  by (induction w c m t items rule: scan.induct) (simp_all add: case_prod_beta)

lemma check_bot_permissions_fst [simp]:
  "fst (check_bot_permissions w c) = emit (Get_Chat_Member c (bot_id w)) w"
  by (simp add: check_bot_permissions_def Let_def split: sum.splits)


lemma check_bot_permissions_result:
  "snd (check_bot_permissions w c) =
     (case chat_members w c (bot_id w) of
        Inr bot_member \<Rightarrow>
          if status bot_member \<notin> set [''administrator'', ''creator'']
          then (False, Not_Administrator)
          else if \<not> (case can_delete_messages bot_member of None \<Rightarrow> False | Some b \<Rightarrow> b)
          then (False, No_Delete_Right)
          else (True, Has_All_Rights)
      | Inl e \<Rightarrow> (False, Check_Error e))"
  by (simp add: check_bot_permissions_def Let_def split: sum.splits)

lemma check_bot_permissions_snd_cong:
  "chat_members v = chat_members w \<Longrightarrow> bot_id v = bot_id w \<Longrightarrow>
   snd (check_bot_permissions v c) = snd (check_bot_permissions w c)"
  by (simp add: check_bot_permissions_result)

lemma load_stopwords_snd_cong:
  "files v = files w \<Longrightarrow> read_fault v = read_fault w \<Longrightarrow>
   snd (load_stopwords v c) = snd (load_stopwords w c)"
  by (simp add: load_stopwords_result read_stopwords_def split: option.splits)

lemma find_first_sublist:
  "find (\<lambda>x. str_contains x t) ws = Some word \<longleftrightarrow>
     (\<exists>before after. ws = before @ word # after \<and> sublist word t \<and> (\<forall>x\<in>set before. \<not> sublist x t))"
proof
  assume "find (\<lambda>x. str_contains x t) ws = Some word"
  then obtain i where i: "i < length ws" "str_contains (ws ! i) t" "word = ws ! i"
    "\<forall>j<i. \<not> str_contains (ws ! j) t"
    by (auto simp: find_Some_iff)
  have "ws = take i ws @ word # drop (Suc i) ws"
    using i by (simp add: id_take_nth_drop)
  moreover have "\<forall>x\<in>set (take i ws). \<not> sublist x t"
    using i by (auto simp: in_set_conv_nth str_contains_sublist)
  ultimately show "\<exists>before after. ws = before @ word # after \<and> sublist word t \<and> (\<forall>x\<in>set before. \<not> sublist x t)"
    using i by (metis str_contains_sublist)
next
  assume "\<exists>before after. ws = before @ word # after \<and> sublist word t \<and> (\<forall>x\<in>set before. \<not> sublist x t)"
  then obtain before after where h: "ws = before @ word # after" "sublist word t"
    "\<forall>x\<in>set before. \<not> sublist x t"
    by blast
  have "find (\<lambda>x. str_contains x t) (before @ word # after) = Some word"
    using h(2,3) by (induction before) (simp_all add: str_contains_sublist)
  then show "find (\<lambda>x. str_contains x t) ws = Some word"
    using h(1) by simp
qed

lemma text_messageD:
  "text_message u = Some (i, txt) \<Longrightarrow>
     \<exists>m. message u = Some m \<and> text m = Some txt \<and> txt \<noteq> [] \<and> message_id m = i"
  by (auto simp: text_message_def split: option.splits if_splits)

lemma check_message_ignored:
  "text_message u = None \<Longrightarrow> check_message lower w u = (w, Ignored)"
  by (auto simp: text_message_def check_message_def split: option.splits if_splits)

lemma check_message_text:
  assumes "text_message u = Some (i, t)"
  shows "check_message lower w u =
     (let c = effective_chat_id u; key = message_key c i
      in if key \<in> processed_messages w then (w, Skipped AlreadyProcessed)
         else
           let w1 = w\<lparr>processed_messages := remember key (processed_messages w)\<rparr>;
               w2 = (if effective_chat_type u \<noteq> ''private'' then emit (Get_Chat_Member c (bot_id w)) w1 else w1)
           in if \<not> bot_capable w u then (w2, Skipped InsufficientBotCapability)
              else
                let v = snd (load_stopwords w c); w3 = fst (load_stopwords w2 c)
                in if \<not> truthy v then (w3, Skipped EmptyStopwordList)
                   else case iterate v of
                          Inl e \<Rightarrow> (w3, Raised e)
                        | Inr items \<Rightarrow> scan w3 c i (lower t) items)"
proof -
  obtain m where m: "message u = Some m" "text m = Some t" "t \<noteq> []" "message_id m = i"
    using text_messageD [OF assms] by blast
  define c where "c = effective_chat_id u"
  define key where "key = message_key c i"
  define w1 where "w1 = w\<lparr>processed_messages := remember key (processed_messages w)\<rparr>"
  have p: "snd (check_bot_permissions w1 c) = snd (check_bot_permissions w c)"
    by (rule check_bot_permissions_snd_cong) (simp_all add: w1_def)
  have l1: "snd (load_stopwords w1 c) = snd (load_stopwords w c)"
    by (rule load_stopwords_snd_cong) (simp_all add: w1_def)
  have l2: "snd (load_stopwords (emit (Get_Chat_Member c (bot_id w)) w1) c) = snd (load_stopwords w c)"
    by (rule load_stopwords_snd_cong) (simp_all add: w1_def)
  have b: "bot_id w1 = bot_id w"
    by (simp add: w1_def)
  show ?thesis
    using m p l1 l2 b
    by (simp add: check_message_def bot_capable_def Let_def case_prod_beta
        c_def [symmetric] key_def [symmetric] w1_def [symmetric] split: sum.splits)
qed

lemma check_message_processed:
  assumes "text_message u = Some (i, t)"
  shows "processed_messages (fst (check_message lower w u)) =
     (if message_key (effective_chat_id u) i \<in> processed_messages w then processed_messages w
      else remember (message_key (effective_chat_id u) i) (processed_messages w))"
  by (simp add: check_message_text [OF assms] Let_def scan_processed_messages split: sum.splits)

lemma check_message_incapable:
  assumes "text_message u = Some (i, t)" and "\<not> bot_capable w u"
  shows "snd (check_message lower w u) =
           (if message_key (effective_chat_id u) i \<in> processed_messages w
            then Skipped AlreadyProcessed else Skipped InsufficientBotCapability)"
    and "filter is_delete (new_events w (fst (check_message lower w u))) = []"
  using assms(2) by (simp_all add: check_message_text [OF assms(1)] Let_def new_events_def)

lemma check_message_words:
  assumes "text_message u = Some (i, t)"
    and "snd (load_stopwords w (effective_chat_id u)) = words ws"
  shows "check_message lower w u =
     (let c = effective_chat_id u; key = message_key c i
      in if key \<in> processed_messages w then (w, Skipped AlreadyProcessed)
         else
           let w1 = w\<lparr>processed_messages := remember key (processed_messages w)\<rparr>;
               w2 = (if effective_chat_type u \<noteq> ''private'' then emit (Get_Chat_Member c (bot_id w)) w1 else w1)
           in if \<not> bot_capable w u then (w2, Skipped InsufficientBotCapability)
              else if ws = [] then (fst (load_stopwords w2 c), Skipped EmptyStopwordList)
              else scan (fst (load_stopwords w2 c)) c i (lower t) (map JString ws))"
  using assms(2) by (simp add: check_message_text [OF assms(1)] Let_def)

lemma scan_words_matched:
  "matched_word (snd (scan w c m t (map JString ws))) = find (\<lambda>x. str_contains x t) ws"
  by (simp add: scan_words split: option.splits)

lemma scan_words_snd:
  "snd (scan w c i t (map JString ws)) =
     (case find (\<lambda>x. str_contains x t) ws of
        None \<Rightarrow> NoMatch
      | Some word \<Rightarrow> if delete_fault w c i = None then DeletedOnMatch word else DeleteFailed word)"
  by (simp add: scan_words safe_delete_message_snd split: option.splits)

lemma check_message_matched_word:
  assumes "text_message u = Some (i, t)"
    and "snd (load_stopwords w (effective_chat_id u)) = words ws"
  shows "matched_word (snd (check_message lower w u)) =
     (if message_key (effective_chat_id u) i \<notin> processed_messages w \<and> bot_capable w u
      then find (\<lambda>x. str_contains x (lower t)) ws
      else None)"
  by (simp add: check_message_words [OF assms] Let_def scan_words_matched)

lemma check_message_trace:
  assumes "text_message u = Some (i, t)"
    and "snd (load_stopwords w (effective_chat_id u)) = words ws"
  shows "trace (fst (check_message lower w u)) =
     trace w @
     (if message_key (effective_chat_id u) i \<in> processed_messages w then []
      else (if effective_chat_type u = ''private'' then []
            else [Get_Chat_Member (effective_chat_id u) (bot_id w)]) @
           (if \<not> bot_capable w u then []
            else Load_Stopwords (effective_chat_id u) #
                 (if files w (get_stopwords_file (effective_chat_id u)) = None
                  then [Save_Stopwords (effective_chat_id u) (JArray [])] else []) @
                 (if find (\<lambda>x. str_contains x (lower t)) ws = None
                  then [] else [Delete_Message (effective_chat_id u) i])))"
  by (simp add: check_message_words [OF assms] Let_def scan_trace scan_words_matched)

lemma check_message_outcome:
  assumes "text_message u = Some (i, t)"
    and "snd (load_stopwords w (effective_chat_id u)) = words ws"
  shows "snd (check_message lower w u) =
     (if message_key (effective_chat_id u) i \<in> processed_messages w then Skipped AlreadyProcessed
      else if \<not> bot_capable w u then Skipped InsufficientBotCapability
      else if ws = [] then Skipped EmptyStopwordList
      else case find (\<lambda>x. str_contains x (lower t)) ws of
             None \<Rightarrow> NoMatch
           | Some word \<Rightarrow>
               if delete_fault w (effective_chat_id u) i = None
               then DeletedOnMatch word else DeleteFailed word)"
  by (simp add: check_message_words [OF assms] Let_def scan_words_snd split: option.splits)

lemma check_message_deletes:
  assumes "text_message u = Some (i, t)"
    and "snd (load_stopwords w (effective_chat_id u)) = words ws"
  shows "filter is_delete (new_events w (fst (check_message lower w u))) =
     (if message_key (effective_chat_id u) i \<notin> processed_messages w \<and> bot_capable w u
         \<and> find (\<lambda>x. str_contains x (lower t)) ws \<noteq> None
      then [Delete_Message (effective_chat_id u) i] else [])"
  by (simp add: new_events_def check_message_trace [OF assms])

lemma digit_value_digit_char: "d < 10 \<Longrightarrow> digit_value (digit_char d) = d"
proof -
  assume "d < 10"
  then have "d \<in> {0, 1, 2, 3, 4, 5, 6, 7, 8, 9}"
    by auto
  then show ?thesis
    by (auto simp: digit_value_def digit_char_def)
qed

lemma nat_of_str_str_nat: "nat_of_str (str_nat n) = n"
proof (induction n rule: str_nat.induct)
  case (1 n)
  show ?case
  proof (cases "n < 10")
    case True
    then show ?thesis
      by (simp add: str_nat.simps [of n] nat_of_str_def digit_value_digit_char)
  next
    case False
    then have "nat_of_str (str_nat (n div 10)) = n div 10"
      using "1.IH" by simp
    then show ?thesis
      using False
      by (simp add: str_nat.simps [of n] nat_of_str_def digit_value_digit_char)
  qed
qed

lemma str_nat_inj: "str_nat m = str_nat n \<Longrightarrow> m = n"
  by (metis nat_of_str_str_nat)

lemma message_key_nat_inj: "inj (\<lambda>n. message_key c (int n))"
  by (rule injI) (simp add: message_key_def str_int_def str_nat_inj)

lemma full_cache_card: "finite full_cache \<and> card full_cache = MAX_CACHE_SIZE"
proof -
  have "inj_on (\<lambda>n. message_key 42 (int n)) {..<MAX_CACHE_SIZE}"
    using message_key_nat_inj [of 42] by (rule inj_on_subset) simp
  then show ?thesis
    by (simp add: full_cache_def card_image)
qed

lemma overflow_key_new: "message_key 42 1000 \<notin> full_cache"
proof
  assume "message_key 42 1000 \<in> full_cache"
  then obtain n where n: "n < MAX_CACHE_SIZE" "message_key 42 (int 1000) = message_key 42 (int n)"
    by (auto simp: full_cache_def)
  then have "1000 = n"
    using message_key_nat_inj [of 42] by (simp add: inj_def)
  then show False
    using n(1) by (simp add: MAX_CACHE_SIZE_def)
qed

lemma digit_char_plain:
  "d < 10 \<Longrightarrow> digit_char d \<noteq> CHR ''-'' \<and> digit_char d \<noteq> CHR ''_''"
proof -
  assume "d < 10"
  then have "d \<in> {0, 1, 2, 3, 4, 5, 6, 7, 8, 9}"
    by auto
  then show ?thesis
    by (auto simp: digit_char_def)
qed

lemma str_nat_no_sign: "CHR ''-'' \<notin> set (str_nat n) \<and> CHR ''_'' \<notin> set (str_nat n)"
proof (induction n rule: str_nat.induct)
  case (1 n)
  show ?case
  proof (cases "n < 10")
    case True
    then show ?thesis
      using digit_char_plain [of n] by (auto simp: str_nat.simps [of n])
  next
    case False
    then show ?thesis
      using "1.IH" digit_char_plain [of "n mod 10"] by (auto simp: str_nat.simps [of n])
  qed
qed

lemma str_nat_not_Nil: "str_nat n \<noteq> []"
  by (simp add: str_nat.simps [of n])

lemma str_int_inj: "str_int i = str_int j \<Longrightarrow> i = j"
proof -
  assume e: "str_int i = str_int j"
  have neg: "str_nat m \<noteq> CHR ''-'' # str_nat n" for m n
    using str_nat_no_sign [of m] by (metis list.set_intros(1))
  show ?thesis
  proof (cases "i < 0")
    case True
    then have "j < 0"
      using e neg [of "nat j" "nat (- i)"] by (auto simp: str_int_def split: if_splits)
    then show ?thesis
      using e True by (auto simp: str_int_def dest: str_nat_inj)
  next
    case False
    then have "\<not> j < 0"
      using e neg [of "nat i" "nat (- j)"] by (auto simp: str_int_def split: if_splits)
    then show ?thesis
      using e False by (auto simp: str_int_def dest: str_nat_inj)
  qed
qed

lemma str_int_no_underscore: "CHR ''_'' \<notin> set (str_int i)"
  using str_nat_no_sign by (simp add: str_int_def)

lemma split_at_separator:
  "c \<notin> set xs \<Longrightarrow> c \<notin> set xs' \<Longrightarrow> xs @ c # ys = xs' @ c # ys' \<Longrightarrow> xs = xs' \<and> ys = ys'"
proof (induction xs arbitrary: xs')
  case Nil
  then show ?case by (cases xs') auto
next
  case (Cons x xs)
  then show ?case by (cases xs') auto
qed

lemma message_key_inj:
  "message_key c i = message_key c' i' \<Longrightarrow> c = c' \<and> i = i'"
  using split_at_separator [of "CHR ''_''" "str_int c" "str_int c'" "str_int i" "str_int i'"]
  by (auto simp: message_key_def str_int_no_underscore dest: str_int_inj)

lemma remember_finite: "finite cache \<Longrightarrow> finite (remember key cache)"
  by (simp add: remember_def Let_def)

lemma remember_card: "finite cache \<Longrightarrow> card (remember key cache) \<le> MAX_CACHE_SIZE"
  by (simp add: remember_def Let_def MAX_CACHE_SIZE_def)

lemma remember_member: "key \<in> remember key cache"
  by (simp add: remember_def Let_def)

lemma check_message_cache:
  assumes "finite (processed_messages w)"
    and "card (processed_messages w) \<le> MAX_CACHE_SIZE"
  shows "finite (processed_messages (fst (check_message lower w u)))
       \<and> card (processed_messages (fst (check_message lower w u))) \<le> MAX_CACHE_SIZE"
proof (cases "text_message u")
  case None
  then show ?thesis
    using assms by (simp add: check_message_ignored)
next
  case (Some p)
  then obtain i t where "text_message u = Some (i, t)"
    by (cases p) simp
  then show ?thesis
    using assms by (simp add: check_message_processed remember_finite remember_card)
qed

lemma run_cache:
  "finite (processed_messages w) \<Longrightarrow> card (processed_messages w) \<le> MAX_CACHE_SIZE \<Longrightarrow>
   finite (processed_messages (run lower w us))
     \<and> card (processed_messages (run lower w us)) \<le> MAX_CACHE_SIZE"
proof (induction us arbitrary: w)
  case Nil
  then show ?case by simp
next
  case (Cons u us)
  show ?case
    using Cons.IH [of "fst (check_message lower w u)"] check_message_cache [OF Cons.prems, of lower u]
    by simp
qed

lemma is_admin_fst:
  "fst (is_admin w u) =
     (if effective_chat_type u = ''private'' then w
      else emit (Get_Chat_Member (effective_chat_id u) (effective_user_id u)) w)"
  by (simp add: is_admin_def Let_def split: sum.splits)

lemma is_admin_snd:
  "snd (is_admin w u) =
     (effective_chat_type u = ''private'' \<or>
      (case chat_members w (effective_chat_id u) (effective_user_id u) of
         Inr chat_member \<Rightarrow> status chat_member \<in> set [''creator'', ''administrator'']
       | Inl e \<Rightarrow> False))"
  by (simp add: is_admin_def Let_def split: sum.splits)

lemma save_stopwords_files:
  "files (save_stopwords w c v) =
     (case write_fault w (get_stopwords_file c) of
        None \<Rightarrow> (files w)(get_stopwords_file c \<mapsto> Json (stopwords_document v))
      | Some Open_Fails \<Rightarrow> files w
      | Some Dump_Fails \<Rightarrow> (files w)(get_stopwords_file c \<mapsto> Not_Json))"
  by (simp add: save_stopwords_def Let_def split: option.splits write_fault.splits)

lemma load_stopwords_files:
  "files (fst (load_stopwords w c)) =
     (if files w (get_stopwords_file c) = None then files (save_stopwords w c (JArray [])) else files w)"
  by (simp add: load_stopwords_def Let_def save_stopwords_files split: option.splits sum.splits write_fault.splits)

lemma load_stopwords_files_present:
  "files w (get_stopwords_file c) \<noteq> None \<Longrightarrow> files (fst (load_stopwords w c)) = files w"
  by (auto simp: load_stopwords_files)

lemma is_admin_fields [simp]:
  "files (fst (is_admin w u)) = files w"
  "read_fault (fst (is_admin w u)) = read_fault w"
  "write_fault (fst (is_admin w u)) = write_fault w"
  "bot_id (fst (is_admin w u)) = bot_id w"
  "chat_members (fst (is_admin w u)) = chat_members w"
  "processed_messages (fst (is_admin w u)) = processed_messages w"
  "reply_fault (fst (is_admin w u)) = reply_fault w"
  by (simp_all add: is_admin_fst)

lemma is_admin_trace:
  "trace (fst (is_admin w u)) =
     trace w @ (if effective_chat_type u = ''private'' then []
                else [Get_Chat_Member (effective_chat_id u) (effective_user_id u)])"
  by (simp add: is_admin_fst)

lemma reply_text_fields [simp]:
  "files (fst (reply_text w u r)) = files w"
  "trace (fst (reply_text w u r)) =
     trace w @ (case message u of None \<Rightarrow> [] | Some m \<Rightarrow> [Reply_Text r])"
  by (simp_all add: reply_text_def split: option.splits)


lemma replies_append [simp]: "replies (xs @ ys) = replies xs @ replies ys"
  by (induction xs rule: replies.induct) simp_all

lemma load_stopwords_snd_emit [simp]:
  "snd (load_stopwords (emit e w) c) = snd (load_stopwords w c)"
  by (rule load_stopwords_snd_cong) simp_all

lemma load_stopwords_snd_is_admin [simp]:
  "snd (load_stopwords (fst (is_admin w u)) c) = snd (load_stopwords w c)"
  by (rule load_stopwords_snd_cong) simp_all

lemma check_bot_permissions_snd_is_admin [simp]:
  "snd (check_bot_permissions (fst (is_admin w u)) c) = snd (check_bot_permissions w c)"
  by (rule check_bot_permissions_snd_cong) simp_all

lemma save_stopwords_written:
  "write_fault w (get_stopwords_file c) = None \<Longrightarrow>
   files (save_stopwords w c v) (get_stopwords_file c) = Some (Json (stopwords_document v))"
  by (simp add: save_stopwords_files)

lemma add_word_unfold:
  "add_word lower w u args =
     (let c = effective_chat_id u;
          w1 = fst (is_admin w u)
      in if \<not> snd (is_admin w u) then reply_text w1 u Only_Admins_Add
         else
           let w2 = (if effective_chat_type u \<noteq> ''private''
                     then emit (Get_Chat_Member c (bot_id w)) w1 else w1)
           in if \<not> bot_capable w u then reply_text w2 u Cannot_Add
              else case args of
                     [] \<Rightarrow> reply_text w2 u Usage_Add
                   | a # rest \<Rightarrow>
                       let word = lower a;
                           v = snd (load_stopwords w c);
                           w3 = fst (load_stopwords w2 c)
                       in case member_of word v of
                            Inl e \<Rightarrow> (w3, Some e)
                          | Inr present \<Rightarrow>
                              if present then reply_text w3 u (Already_Present word)
                              else case append_word v word of
                                     Inl e \<Rightarrow> (w3, Some e)
                                   | Inr v' \<Rightarrow> reply_text (save_stopwords w3 c v') u (Added word))"
proof (cases "effective_chat_type u = ''private''")
  case True
  then show ?thesis
    by (simp add: add_word_def bot_capable_def Let_def case_prod_beta split: list.splits sum.splits)
next
  case False
  then show ?thesis
    by (simp add: add_word_def bot_capable_def Let_def case_prod_beta split: list.splits sum.splits)
qed

lemma remove_word_unfold:
  "remove_word lower w u args =
     (let c = effective_chat_id u;
          w1 = fst (is_admin w u)
      in if \<not> snd (is_admin w u) then reply_text w1 u Only_Admins_Remove
         else case args of
                [] \<Rightarrow> reply_text w1 u Usage_Remove
              | a # rest \<Rightarrow>
                  let word = lower a;
                      v = snd (load_stopwords w c);
                      w2 = fst (load_stopwords w1 c)
                  in case member_of word v of
                       Inl e \<Rightarrow> (w2, Some e)
                     | Inr present \<Rightarrow>
                         if \<not> present then reply_text w2 u (Not_Found word)
                         else case remove_first v word of
                                Inl e \<Rightarrow> (w2, Some e)
                              | Inr v' \<Rightarrow> reply_text (save_stopwords w2 c v') u (Removed word))"
  by (simp add: remove_word_def Let_def case_prod_beta split: list.splits sum.splits)


subsection \<open>The scan takes the first stop word in stored order\<close>

text \<open>
  Claim C1. For a text message, the scan lowercases the text once and goes through the
  stop words in the order \<^verbatim>\<open>load_stopwords\<close> returns them. A word reported as matched is
  the first of the list that occurs in the lowercased text: it occurs there, and no
  word before it in the list does, whatever follows it. Exactly one request to delete
  the message is sent for it. When the message is not in the cache and the capability
  test passes, the word reported is the first such word of the list, if there is one.
\<close>

theorem first_match_scan:
  assumes "text_message u = Some (i, txt)"
    and "snd (load_stopwords w (effective_chat_id u)) = words ws"
    and "check_message lower w u = (w', out)"
  shows "(matched_word out = Some word \<longrightarrow>
            (\<exists>before after. ws = before @ word # after \<and> sublist word (lower txt)
                \<and> (\<forall>x\<in>set before. \<not> sublist x (lower txt)))
            \<and> filter is_delete (new_events w w') = [Delete_Message (effective_chat_id u) i])
       \<and> (message_key (effective_chat_id u) i \<notin> processed_messages w \<and> bot_capable w u \<longrightarrow>
            matched_word out = find (\<lambda>x. str_contains x (lower txt)) ws)"
proof -
  have w': "w' = fst (check_message lower w u)" and out: "out = snd (check_message lower w u)"
    using assms(3) by simp_all
  have mw: "matched_word out =
     (if message_key (effective_chat_id u) i \<notin> processed_messages w \<and> bot_capable w u
      then find (\<lambda>x. str_contains x (lower txt)) ws else None)"
    unfolding out by (simp add: check_message_matched_word [OF assms(1,2)])
  have first: "matched_word out = Some word \<Longrightarrow>
      \<exists>before after. ws = before @ word # after \<and> sublist word (lower txt)
         \<and> (\<forall>x\<in>set before. \<not> sublist x (lower txt))"
    using mw find_first_sublist [of "lower txt" ws word] by (auto split: if_splits)
  have del: "matched_word out = Some word \<Longrightarrow>
      filter is_delete (new_events w w') = [Delete_Message (effective_chat_id u) i]"
    using mw unfolding w' new_events_def
    by (auto simp: check_message_trace [OF assms(1,2)] split: if_splits)
  show ?thesis
    using mw first del by simp
qed

text \<open>The stored list \<^verbatim>\<open>["cat", "category"]\<close> and the text \<^verbatim>\<open>this is a category\<close>: the word
  reported is \<^verbatim>\<open>cat\<close>, and one request to delete message 7 of chat 42 is sent.\<close>

theorem first_match_scan_witness:
  "matched_word (snd (check_message ascii_lower cat_world cat_update)) = Some ''cat''
   \<and> filter is_delete (new_events cat_world (fst (check_message ascii_lower cat_world cat_update)))
       = [Delete_Message 42 7]"
proof -
  have t: "text_message cat_update = Some (7, ''this is a category'')"
    by (simp add: cat_update_def text_update_def text_message_def)
  have l: "snd (load_stopwords cat_world (effective_chat_id cat_update)) = words [''cat'', ''category'']"
    by (rule load_stopwords_stored)
      (simp_all add: cat_world_def base_world_def cat_update_def text_update_def)
  have k: "message_key (effective_chat_id cat_update) 7 \<notin> processed_messages cat_world"
    by (simp add: cat_world_def base_world_def)
  have b: "bot_capable cat_world cat_update"
    by (simp add: bot_capable_def cat_update_def text_update_def)
  have f: "find (\<lambda>x. str_contains x (ascii_lower ''this is a category'')) [''cat'', ''category'']
      = Some ''cat''"
    by (simp add: ascii_lower_def ascii_lower_char_def)
  have c: "effective_chat_id cat_update = 42"
    by (simp add: cat_update_def text_update_def)
  show ?thesis
    using first_match_scan [OF t l surjective_pairing, of ascii_lower "''cat''"] k b f c
    by simp
qed

subsection \<open>The cache of processed messages is bounded\<close>

text \<open>
  Claim C2. The cache of processed messages never holds more than \<open>MAX_CACHE_SIZE\<close> keys:
  a cache within the bound is within the bound after \<^verbatim>\<open>check_message\<close> has handled an
  update, and so after any sequence of updates. After a text message has been handled
  its key is in the cache. When adding a new key takes the cache past the bound, the
  cache is emptied and holds the new key alone; otherwise the key is added to it.
\<close>

theorem cache_bound:
  assumes "finite (processed_messages w)"
    and "card (processed_messages w) \<le> MAX_CACHE_SIZE"
  shows "finite (processed_messages (fst (check_message lower w u)))
       \<and> card (processed_messages (fst (check_message lower w u))) \<le> MAX_CACHE_SIZE
       \<and> (\<forall>i txt. text_message u = Some (i, txt) \<longrightarrow>
             message_key (effective_chat_id u) i \<in> processed_messages (fst (check_message lower w u))
           \<and> (message_key (effective_chat_id u) i \<notin> processed_messages w \<longrightarrow>
                processed_messages (fst (check_message lower w u)) =
                  (if MAX_CACHE_SIZE < card (insert (message_key (effective_chat_id u) i) (processed_messages w))
                   then {message_key (effective_chat_id u) i}
                   else insert (message_key (effective_chat_id u) i) (processed_messages w))))
       \<and> (\<forall>us. finite (processed_messages (run lower w us))
             \<and> card (processed_messages (run lower w us)) \<le> MAX_CACHE_SIZE)"
proof -
  have "message_key (effective_chat_id u) i \<in> processed_messages (fst (check_message lower w u))"
    if "text_message u = Some (i, t)" for i t
    using that by (simp add: check_message_processed remember_member)
  moreover have "processed_messages (fst (check_message lower w u)) =
      (if MAX_CACHE_SIZE < card (insert (message_key (effective_chat_id u) i) (processed_messages w))
       then {message_key (effective_chat_id u) i}
       else insert (message_key (effective_chat_id u) i) (processed_messages w))"
    if "text_message u = Some (i, t)"
      and "message_key (effective_chat_id u) i \<notin> processed_messages w" for i t
    using that by (simp add: check_message_processed remember_def Let_def)
  ultimately show ?thesis
    using check_message_cache [OF assms, of lower u] run_cache [OF assms, of lower]
    by blast
qed

text \<open>A full cache and a new message: the cache is emptied and holds the new key alone.\<close>

theorem cache_bound_witness:
  "finite (processed_messages full_world)
   \<and> card (processed_messages full_world) = MAX_CACHE_SIZE
   \<and> message_key 42 1000 \<notin> processed_messages full_world
   \<and> processed_messages (fst (check_message ascii_lower full_world overflow_update))
       = {message_key 42 1000}"
proof -
  have f: "finite (processed_messages full_world)"
    and c: "card (processed_messages full_world) = MAX_CACHE_SIZE"
    and k: "message_key 42 1000 \<notin> processed_messages full_world"
    using full_cache_card overflow_key_new by (simp_all add: full_world_def)
  have le: "card (processed_messages full_world) \<le> MAX_CACHE_SIZE"
    using c by simp
  have t: "text_message overflow_update = Some (1000, ''hello'')"
    by (simp add: overflow_update_def text_update_def text_message_def)
  have e: "effective_chat_id overflow_update = 42"
    by (simp add: overflow_update_def text_update_def)
  have "processed_messages (fst (check_message ascii_lower full_world overflow_update))
       = {message_key 42 1000}"
    using cache_bound [OF f le, of ascii_lower overflow_update] t k f c
    by (simp add: e)
  then show ?thesis
    using f c k by simp
qed

subsection \<open>Listing the stop words asks for no permission\<close>




subsection \<open>Removing a stop word needs the admin check only\<close>

text \<open>
  Claim C4, as the code has it. \<^verbatim>\<open>remove_word\<close> checks the user and never the capability
  of the bot. On every path the only member query is the one for the acting user, in
  chats that are not private. A user who is no administrator is refused: no file
  changes, the list is neither loaded nor saved, and the one reply (for an update that
  carries a message) is the refusal. For an administrator, a word that is in the
  stored list is removed from it (the first occurrence) and the list is written back,
  whatever the status of the bot.
\<close>

theorem remove_word_admin_only:
  "filter is_member_query (new_events w (fst (remove_word lower w u args))) =
     (if effective_chat_type u = ''private'' then []
      else [Get_Chat_Member (effective_chat_id u) (effective_user_id u)])
   \<and> (\<not> snd (is_admin w u) \<longrightarrow>
         files (fst (remove_word lower w u args)) = files w
         \<and> filter is_store_access (new_events w (fst (remove_word lower w u args))) = []
         \<and> replies (new_events w (fst (remove_word lower w u args))) =
             (case message u of None \<Rightarrow> [] | Some m \<Rightarrow> [Only_Admins_Remove]))
   \<and> (snd (is_admin w u) \<and> args = a # rest
         \<and> snd (load_stopwords w (effective_chat_id u)) = JArray xs
         \<and> JString (lower a) \<in> set xs
         \<and> write_fault w (get_stopwords_file (effective_chat_id u)) = None \<longrightarrow>
         files (fst (remove_word lower w u args)) (get_stopwords_file (effective_chat_id u))
           = Some (Json (stopwords_document (JArray (remove1 (JString (lower a)) xs))))
         \<and> new_events w (fst (remove_word lower w u args)) =
             (if effective_chat_type u = ''private'' then []
              else [Get_Chat_Member (effective_chat_id u) (effective_user_id u)]) @
             [Load_Stopwords (effective_chat_id u),
              Save_Stopwords (effective_chat_id u) (JArray (remove1 (JString (lower a)) xs))] @
             (case message u of None \<Rightarrow> [] | Some m \<Rightarrow> [Reply_Text (Removed (lower a))]))"
proof -
  let ?c = "effective_chat_id u"
  let ?r = "remove_word lower w u args"
  have q: "filter is_member_query (new_events w (fst ?r)) =
     (if effective_chat_type u = ''private'' then [] else [Get_Chat_Member ?c (effective_user_id u)])"
    by (simp add: remove_word_unfold Let_def new_events_def is_admin_trace
        split: option.splits sum.splits list.splits)
  have n: "files (fst ?r) = files w
         \<and> filter is_store_access (new_events w (fst ?r)) = []
         \<and> replies (new_events w (fst ?r)) =
             (case message u of None \<Rightarrow> [] | Some m \<Rightarrow> [Only_Admins_Remove])"
    if "\<not> snd (is_admin w u)"
    using that
    by (simp add: remove_word_unfold Let_def new_events_def is_admin_trace split: option.splits)
  have y: "files (fst ?r) (get_stopwords_file ?c)
           = Some (Json (stopwords_document (JArray (remove1 (JString (lower a)) xs))))
         \<and> new_events w (fst ?r) =
             (if effective_chat_type u = ''private'' then []
              else [Get_Chat_Member ?c (effective_user_id u)]) @
             [Load_Stopwords ?c, Save_Stopwords ?c (JArray (remove1 (JString (lower a)) xs))] @
             (case message u of None \<Rightarrow> [] | Some m \<Rightarrow> [Reply_Text (Removed (lower a))])"
    if h: "snd (is_admin w u)" "args = a # rest" "snd (load_stopwords w ?c) = JArray xs"
      "JString (lower a) \<in> set xs" "write_fault w (get_stopwords_file ?c) = None"
  proof -
    have "files w (get_stopwords_file ?c) \<noteq> None"
      using h(3,4) by (cases "files w (get_stopwords_file ?c)") (auto simp: load_stopwords_result)
    then show ?thesis
      using h
      by (simp add: remove_word_unfold Let_def new_events_def is_admin_trace save_stopwords_written
          split: option.splits)
  qed
  show ?thesis
    using q n y by (intro conjI impI) (simp_all only: simp_thms)
qed

text \<open>An administrator removes \<^verbatim>\<open>CAT\<close> in a private chat; a plain member of the group is
  refused and the file stays as it is.\<close>

theorem remove_word_admin_only_witness:
  "snd (is_admin cat_world (text_update 42 ''private'' 5 12 ''/remove_word CAT''))
   \<and> files (fst (remove_word ascii_lower cat_world (text_update 42 ''private'' 5 12 ''/remove_word CAT'')
             [''CAT''])) (get_stopwords_file 42)
       = Some (stored [''category''])
   \<and> \<not> snd (is_admin group_world (text_update (- 1001) ''group'' 6 14 ''/remove_word spam''))
   \<and> files (fst (remove_word ascii_lower group_world
               (text_update (- 1001) ''group'' 6 14 ''/remove_word spam'') [''spam'']))
       = files group_world
   \<and> replies (new_events group_world (fst (remove_word ascii_lower group_world
               (text_update (- 1001) ''group'' 6 14 ''/remove_word spam'') [''spam''])))
       = [Only_Admins_Remove]"
proof -
  let ?u = "text_update 42 ''private'' 5 12 ''/remove_word CAT''"
  let ?v = "text_update (- 1001) ''group'' 6 14 ''/remove_word spam''"
  have c: "effective_chat_id ?u = 42" "message ?v \<noteq> None"
    by (simp_all add: text_update_def)
  have a: "snd (is_admin cat_world ?u)"
    by (simp add: is_admin_snd text_update_def)
  have l: "snd (load_stopwords cat_world (effective_chat_id ?u)) = JArray [JString ''cat'', JString ''category'']"
    using load_stopwords_stored [of cat_world 42 "[''cat'', ''category'']"]
    by (simp add: c cat_world_def base_world_def words_def)
  have f: "ascii_lower ''CAT'' = ''cat''"
    by code_simp
  have m: "JString (ascii_lower ''CAT'') \<in> set [JString ''cat'', JString ''category'']"
    by (simp add: f)
  have w: "write_fault cat_world (get_stopwords_file (effective_chat_id ?u)) = None"
    by (simp add: cat_world_def base_world_def)
  have n: "\<not> snd (is_admin group_world ?v)"
    by (simp add: is_admin_snd text_update_def group_world_def base_world_def)
  have 1: "files (fst (remove_word ascii_lower cat_world ?u [''CAT''])) (get_stopwords_file 42)
       = Some (stored [''category''])"
    using remove_word_admin_only [of cat_world ascii_lower ?u "[''CAT'']" "''CAT''" "[]"
        "[JString ''cat'', JString ''category'']"] a l m w
    by (simp add: c f stored_def words_def)
  have 2: "files (fst (remove_word ascii_lower group_world ?v [''spam''])) = files group_world
     \<and> replies (new_events group_world (fst (remove_word ascii_lower group_world ?v [''spam''])))
       = [Only_Admins_Remove]"
    using remove_word_admin_only [of group_world ascii_lower ?v "[''spam'']"] n c(2)
    by (auto split: option.splits)
  show ?thesis
    using a n 1 2 by simp
qed

text \<open>Against the claim as stated (without the capability nothing is removed): in a group
  where the bot is a plain member, the administrator removes \<^verbatim>\<open>spam\<close>; the bot's status
  is not asked for.\<close>

theorem remove_word_counterexample:
  "\<not> bot_capable group_world remove_word_update
   \<and> files (fst (remove_word ascii_lower group_world remove_word_update [''spam'']))
       (get_stopwords_file (- 1001)) = Some (stored [])
   \<and> new_events group_world (fst (remove_word ascii_lower group_world remove_word_update [''spam'']))
       = [Get_Chat_Member (- 1001) 5, Load_Stopwords (- 1001), Save_Stopwords (- 1001) (JArray []),
          Reply_Text (Removed ''spam'')]"
proof -
  let ?c = "effective_chat_id remove_word_update"
  have c: "?c = - 1001" "effective_chat_type remove_word_update = ''group''"
    "effective_user_id remove_word_update = 5"
    "message remove_word_update = Some \<lparr>message_id = 11, text = Some ''/remove_word spam''\<rparr>"
    by (simp_all add: remove_word_update_def text_update_def)
  have l: "snd (load_stopwords group_world (- 1001)) = words [''spam'']"
    by (rule load_stopwords_stored) (simp_all add: group_world_def base_world_def)
  have p: "files group_world (get_stopwords_file (- 1001)) \<noteq> None"
    by (simp add: group_world_def base_world_def)
  have f: "ascii_lower ''spam'' = ''spam''"
    by code_simp
  have a: "snd (is_admin group_world remove_word_update)"
    by (simp add: is_admin_snd c group_world_def base_world_def)
  have b: "\<not> bot_capable group_world remove_word_update"
    by (simp add: bot_capable_def c check_bot_permissions_result group_world_def base_world_def)
  have w: "write_fault group_world (get_stopwords_file (- 1001)) = None"
    by (simp add: group_world_def base_world_def)
  have s: "files (fst (remove_word ascii_lower group_world remove_word_update [''spam'']))
       (get_stopwords_file (- 1001)) = Some (stored [])"
    using a w by (simp add: remove_word_unfold Let_def c l f save_stopwords_written stored_def)
  have t: "new_events group_world (fst (remove_word ascii_lower group_world remove_word_update [''spam'']))
       = [Get_Chat_Member (- 1001) 5, Load_Stopwords (- 1001), Save_Stopwords (- 1001) (JArray []),
          Reply_Text (Removed ''spam'')]"
    using a p by (simp add: remove_word_unfold Let_def new_events_def is_admin_trace c l f)
  show ?thesis
    using b s t by simp
qed

subsection \<open>A bot without rights deletes nothing\<close>

text \<open>
  Claim C5, as the code has it. For a text message in a chat that is not private, where
  the bot has the status \<^verbatim>\<open>member\<close>, no request to delete is sent, whatever the text. The
  handler ends as \<open>Skipped InsufficientBotCapability\<close>, unless the message is already in
  the cache: then it ends as \<open>Skipped AlreadyProcessed\<close>, before the capability is looked at.
\<close>

theorem member_bot_never_deletes:
  assumes "text_message u = Some (i, t)"
    and "effective_chat_type u \<noteq> ''private''"
    and "chat_members w (effective_chat_id u) (bot_id w) = Inr bot_member"
    and "status bot_member = ''member''"
  shows "filter is_delete (new_events w (fst (check_message lower w u))) = []
       \<and> snd (check_message lower w u) =
           (if message_key (effective_chat_id u) i \<in> processed_messages w
            then Skipped AlreadyProcessed else Skipped InsufficientBotCapability)"
proof -
  have "\<not> bot_capable w u"
    using assms(2-4) by (simp add: bot_capable_def check_bot_permissions_result)
  then show ?thesis
    by (simp add: check_message_incapable [OF assms(1)])
qed

theorem member_bot_never_deletes_witness:
  "effective_chat_type spam_update \<noteq> ''private''
   \<and> chat_members group_world (- 1001) (bot_id group_world)
       = Inr \<lparr>status = ''member'', can_delete_messages = None\<rparr>
   \<and> snd (load_stopwords group_world (- 1001)) = words [''spam'']
   \<and> str_contains ''spam'' (ascii_lower ''buy SPAM now'')
   \<and> filter is_delete (new_events group_world (fst (check_message ascii_lower group_world spam_update))) = []
   \<and> snd (check_message ascii_lower group_world spam_update) = Skipped InsufficientBotCapability"
proof -
  have t: "text_message spam_update = Some (7, ''buy SPAM now'')"
    by (simp add: spam_update_def text_update_def text_message_def)
  have c: "effective_chat_id spam_update = - 1001"
    by (simp add: spam_update_def text_update_def)
  have g: "effective_chat_type spam_update \<noteq> ''private''"
    by (simp add: spam_update_def text_update_def)
  have m: "chat_members group_world (effective_chat_id spam_update) (bot_id group_world)
       = Inr \<lparr>status = ''member'', can_delete_messages = None\<rparr>"
    by (simp add: group_world_def base_world_def)
  have s: "status \<lparr>status = ''member'', can_delete_messages = None\<rparr> = ''member''"
    by simp
  have l: "snd (load_stopwords group_world (- 1001)) = words [''spam'']"
    by (rule load_stopwords_stored) (simp_all add: group_world_def base_world_def)
  have f: "ascii_lower ''buy SPAM now'' = ''buy spam now''"
    by code_simp
  have k: "message_key (effective_chat_id spam_update) 7 \<notin> processed_messages group_world"
    by (simp add: group_world_def base_world_def)
  show ?thesis
    using member_bot_never_deletes [OF t g m s, of ascii_lower] g m l k
    by (simp add: c f)
qed

text \<open>Against the claim as stated (every such message ends as
  \<open>Skipped InsufficientBotCapability\<close>): a second delivery of message 7.\<close>

theorem member_bot_counterexample:
  "effective_chat_type spam_update = ''group''
   \<and> chat_members seen_world (- 1001) (bot_id seen_world)
       = Inr \<lparr>status = ''member'', can_delete_messages = None\<rparr>
   \<and> snd (check_message ascii_lower seen_world spam_update) = Skipped AlreadyProcessed"
proof -
  have t: "text_message spam_update = Some (7, ''buy SPAM now'')"
    by (simp add: spam_update_def text_update_def text_message_def)
  have k: "message_key (effective_chat_id spam_update) 7 \<in> processed_messages seen_world"
    by (simp add: seen_world_def spam_update_def text_update_def)
  have "snd (check_message ascii_lower seen_world spam_update) = Skipped AlreadyProcessed"
    using k by (simp add: check_message_text [OF t] Let_def)
  then show ?thesis
    by (simp add: seen_world_def group_world_def base_world_def spam_update_def text_update_def)
qed

subsection \<open>An empty list deletes nothing\<close>

text \<open>
  Claim C6, as the code has it. For a text message in a chat whose list is empty, no
  request to delete is sent, whatever the text. The handler ends as
  \<open>Skipped EmptyStopwordList\<close> when it gets as far as loading the list; a message already
  in the cache ends as \<open>Skipped AlreadyProcessed\<close>, and one in a chat where the capability
  test fails ends as \<open>Skipped InsufficientBotCapability\<close>, both before the list is loaded.
\<close>

theorem empty_list_never_deletes:
  assumes "text_message u = Some (i, t)"
    and "snd (load_stopwords w (effective_chat_id u)) = JArray []"
  shows "filter is_delete (new_events w (fst (check_message lower w u))) = []
       \<and> snd (check_message lower w u) =
           (if message_key (effective_chat_id u) i \<in> processed_messages w
            then Skipped AlreadyProcessed
            else if \<not> bot_capable w u then Skipped InsufficientBotCapability
            else Skipped EmptyStopwordList)"
proof -
  have e: "snd (load_stopwords w (effective_chat_id u)) = words []"
    using assms(2) by simp
  show ?thesis
    by (simp add: check_message_deletes [OF assms(1) e] check_message_outcome [OF assms(1) e])
qed

theorem empty_list_never_deletes_witness:
  "snd (load_stopwords base_world 7) = JArray []
   \<and> filter is_delete (new_events base_world (fst (check_message ascii_lower base_world private_spam_update))) = []
   \<and> snd (check_message ascii_lower base_world private_spam_update) = Skipped EmptyStopwordList"
proof -
  have t: "text_message private_spam_update = Some (3, ''buy SPAM now'')"
    by (simp add: private_spam_update_def text_update_def text_message_def)
  have c: "effective_chat_id private_spam_update = 7"
    by (simp add: private_spam_update_def text_update_def)
  have l: "snd (load_stopwords base_world (effective_chat_id private_spam_update)) = JArray []"
    by (simp add: load_stopwords_result base_world_def)
  have b: "bot_capable base_world private_spam_update"
    by (simp add: bot_capable_def private_spam_update_def text_update_def)
  have k: "message_key (effective_chat_id private_spam_update) 3 \<notin> processed_messages base_world"
    by (simp add: base_world_def)
  show ?thesis
    using empty_list_never_deletes [OF t l, of ascii_lower] l b k
    by (simp add: c)
qed

text \<open>Against the claim as stated (every such message ends as \<open>Skipped EmptyStopwordList\<close>):
  a group with an empty list in which the bot is a plain member.\<close>

theorem empty_list_counterexample:
  "files empty_world (get_stopwords_file (- 1001)) = Some (stored [])
   \<and> snd (load_stopwords empty_world (- 1001)) = JArray []
   \<and> snd (check_message ascii_lower empty_world spam_update) = Skipped InsufficientBotCapability"
proof -
  have t: "text_message spam_update = Some (7, ''buy SPAM now'')"
    by (simp add: spam_update_def text_update_def text_message_def)
  have c: "effective_chat_id spam_update = - 1001" "effective_chat_type spam_update = ''group''"
    by (simp_all add: spam_update_def text_update_def)
  have b: "\<not> bot_capable empty_world spam_update"
    by (simp add: bot_capable_def c check_bot_permissions_result empty_world_def base_world_def)
  have k: "message_key (effective_chat_id spam_update) 7 \<notin> processed_messages empty_world"
    by (simp add: empty_world_def base_world_def)
  have l: "snd (load_stopwords empty_world (- 1001)) = JArray []"
    using load_stopwords_stored [of empty_world "- 1001" "[]"]
    by (simp add: empty_world_def base_world_def)
  have "snd (check_message ascii_lower empty_world spam_update) = Skipped InsufficientBotCapability"
    using b k by (simp add: check_message_incapable [OF t])
  then show ?thesis
    using l by (simp add: empty_world_def)
qed

subsection \<open>Saving and loading\<close>

text \<open>
  Claim C7. For every chat and every list of words, the empty list included,
  \<^verbatim>\<open>save_stopwords\<close> followed by \<^verbatim>\<open>load_stopwords\<close> returns the list that was saved, with its
  words and their order unchanged, when the file can be written and read. It does so
  for every value that is saved.
\<close>

theorem save_load_round_trip:
  assumes "write_fault w (get_stopwords_file c) = None"
    and "\<not> read_fault w (get_stopwords_file c)"
  shows "snd (load_stopwords (save_stopwords w c v) c) = v"
  using assms
  by (simp add: load_stopwords_result save_stopwords_files read_stopwords_def stopwords_document_def)

theorem save_load_round_trip_witness:
  "snd (load_stopwords (save_stopwords base_world 42 (words [''spam'', ''ham''])) 42)
     = words [''spam'', ''ham'']
   \<and> snd (load_stopwords (save_stopwords cat_world 42 (words [])) 42) = words []"
proof -
  have "write_fault base_world (get_stopwords_file 42) = None"
    and "\<not> read_fault base_world (get_stopwords_file 42)"
    and "write_fault cat_world (get_stopwords_file 42) = None"
    and "\<not> read_fault cat_world (get_stopwords_file 42)"
    by (simp_all add: base_world_def cat_world_def)
  then show ?thesis
    using save_load_round_trip [of base_world 42 "words [''spam'', ''ham'']"]
      save_load_round_trip [of cat_world 42 "words []"]
    by simp
qed




subsection \<open>The arguments of the commands\<close>

text \<open>
  Claim C9. \<^verbatim>\<open>add_word\<close> and \<^verbatim>\<open>remove_word\<close> use the first argument only, lowercased: with
  further arguments they do what they do with the first alone. Past the permission
  checks, \<^verbatim>\<open>add_word\<close> stores the list with that one word appended, and \<^verbatim>\<open>remove_word\<close>
  stores the list without it.
\<close>

theorem first_token_only:
  "add_word lower w u (a # rest) = add_word lower w u [a]
   \<and> remove_word lower w u (a # rest) = remove_word lower w u [a]
   \<and> (snd (is_admin w u) \<and> bot_capable w u
        \<and> snd (load_stopwords w (effective_chat_id u)) = JArray xs
        \<and> JString (lower a) \<notin> set xs
        \<and> write_fault w (get_stopwords_file (effective_chat_id u)) = None \<longrightarrow>
        files (fst (add_word lower w u (a # rest))) (get_stopwords_file (effective_chat_id u))
          = Some (Json (stopwords_document (JArray (xs @ [JString (lower a)])))))
   \<and> (snd (is_admin w u)
        \<and> snd (load_stopwords w (effective_chat_id u)) = JArray xs
        \<and> JString (lower a) \<in> set xs
        \<and> write_fault w (get_stopwords_file (effective_chat_id u)) = None \<longrightarrow>
        files (fst (remove_word lower w u (a # rest))) (get_stopwords_file (effective_chat_id u))
          = Some (Json (stopwords_document (JArray (remove1 (JString (lower a)) xs)))))"
proof -
  have 1: "add_word lower w u (a # rest) = add_word lower w u [a]"
    by (simp add: add_word_unfold Let_def)
  have 2: "remove_word lower w u (a # rest) = remove_word lower w u [a]"
    by (simp add: remove_word_unfold Let_def)
  have 3: "files (fst (add_word lower w u (a # rest))) (get_stopwords_file (effective_chat_id u))
          = Some (Json (stopwords_document (JArray (xs @ [JString (lower a)]))))"
    if "snd (is_admin w u)" "bot_capable w u"
      "snd (load_stopwords w (effective_chat_id u)) = JArray xs"
      "JString (lower a) \<notin> set xs"
      "write_fault w (get_stopwords_file (effective_chat_id u)) = None"
    using that by (simp add: add_word_unfold Let_def save_stopwords_written)
  have 4: "files (fst (remove_word lower w u (a # rest))) (get_stopwords_file (effective_chat_id u))
          = Some (Json (stopwords_document (JArray (remove1 (JString (lower a)) xs))))"
    if "snd (is_admin w u)"
      "snd (load_stopwords w (effective_chat_id u)) = JArray xs"
      "JString (lower a) \<in> set xs"
      "write_fault w (get_stopwords_file (effective_chat_id u)) = None"
    using that by (simp add: remove_word_unfold Let_def save_stopwords_written)
  show ?thesis
    using 1 2 3 4 by (intro conjI impI) (simp_all only: simp_thms)
qed

text \<open>\<^verbatim>\<open>/add_word foo bar\<close> on an empty list stores \<^verbatim>\<open>["foo"]\<close>, and \<^verbatim>\<open>/remove_word CAT now\<close>
  on \<^verbatim>\<open>["cat", "category"]\<close> stores \<^verbatim>\<open>["category"]\<close>.\<close>

theorem first_token_only_witness:
  "snd (is_admin base_world add_word_update) \<and> bot_capable base_world add_word_update
   \<and> write_fault base_world (get_stopwords_file 42) = None
   \<and> snd (load_stopwords base_world 42) = JArray []
   \<and> files (fst (add_word ascii_lower base_world add_word_update [''foo'', ''bar'']))
       (get_stopwords_file 42) = Some (stored [''foo''])
   \<and> snd (load_stopwords cat_world 42) = words [''cat'', ''category'']
   \<and> files (fst (remove_word ascii_lower cat_world add_word_update [''CAT'', ''now'']))
       (get_stopwords_file 42) = Some (stored [''category''])"
proof -
  let ?c = "effective_chat_id add_word_update"
  have c: "?c = 42"
    by (simp add: add_word_update_def text_update_def)
  have a: "snd (is_admin base_world add_word_update)" "bot_capable base_world add_word_update"
    by (simp_all add: is_admin_snd bot_capable_def add_word_update_def text_update_def)
  have l: "snd (load_stopwords base_world ?c) = JArray []"
    "write_fault base_world (get_stopwords_file ?c) = None"
    by (simp_all add: load_stopwords_result base_world_def)
  have f: "ascii_lower ''foo'' = ''foo''"
    by code_simp
  have n: "JString (ascii_lower ''foo'') \<notin> set []"
    by simp
  have "files (fst (add_word ascii_lower base_world add_word_update (''foo'' # [''bar''])))
          (get_stopwords_file ?c)
        = Some (Json (stopwords_document (JArray ([] @ [JString (ascii_lower ''foo'')]))))"
    using first_token_only [of ascii_lower base_world add_word_update "''foo''" "[''bar'']" "[]"]
      a l n
    by blast
  then have 1: "files (fst (add_word ascii_lower base_world add_word_update [''foo'', ''bar'']))
       (get_stopwords_file 42) = Some (stored [''foo''])"
    by (simp add: c f stored_def words_def)
  have a': "snd (is_admin cat_world add_word_update)"
    by (simp add: is_admin_snd add_word_update_def text_update_def)
  have l': "snd (load_stopwords cat_world ?c) = JArray [JString ''cat'', JString ''category'']"
    "write_fault cat_world (get_stopwords_file ?c) = None"
    using load_stopwords_stored [of cat_world 42 "[''cat'', ''category'']"]
    by (simp_all add: c cat_world_def base_world_def words_def)
  have g: "ascii_lower ''CAT'' = ''cat''"
    by code_simp
  have m: "JString (ascii_lower ''CAT'') \<in> set [JString ''cat'', JString ''category'']"
    by (simp add: g)
  have "files (fst (remove_word ascii_lower cat_world add_word_update (''CAT'' # [''now''])))
          (get_stopwords_file ?c)
        = Some (Json (stopwords_document
            (JArray (remove1 (JString (ascii_lower ''CAT'')) [JString ''cat'', JString ''category'']))))"
    using first_token_only [of ascii_lower cat_world add_word_update "''CAT''" "[''now'']"
        "[JString ''cat'', JString ''category'']"] a' l' m
    by blast
  then have 2: "files (fst (remove_word ascii_lower cat_world add_word_update [''CAT'', ''now'']))
       (get_stopwords_file 42) = Some (stored [''category''])"
    by (simp add: c g stored_def words_def)
  have 3: "snd (load_stopwords cat_world 42) = words [''cat'', ''category'']"
    using l'(1) by (simp add: c words_def)
  show ?thesis
    using a l 1 2 3 by (simp add: c)
qed




end
